theory Spec2Isabelle
  imports Main "HOL-Library.Sublist"
begin

section \<open>Review scraper: a shallow embedding of \<^verbatim>\<open>pulsegen/review_scraper/scraper.py\<close>\<close>

text \<open>
  The scraper drives a browser page by page and pulls review records out of the
  rendered cards. Everything the browser answers is an input of the model: a page is a
  record of what each Playwright call on it returns, a card likewise. A call the source
  wraps in \<^verbatim>\<open>try/except Exception\<close> returns a sum (\<open>Inl\<close> the exception); the
  navigation \<^verbatim>\<open>page.goto\<close> may fail too, and an exception that the source does not
  catch ends the whole run (\<open>Inl\<close> of the adapter). The calls the source leaves
  unguarded (\<^verbatim>\<open>page.content()\<close>, \<^verbatim>\<open>cards.count()\<close>, \<^verbatim>\<open>cards.nth(i)\<close>) are taken to
  succeed. The pauses, the cookie banner, the scrolling and the debug dump swallow their
  own exceptions and change nothing the adapters return, so they do not appear.
\<close>

subsection \<open>Strings\<close>

text \<open>
  A Python \<^verbatim>\<open>str\<close> is a \<open>string\<close> whose characters are the code points below 256, one
  \<open>char\<close> per code point, so that \<open>length\<close> is Python's \<^verbatim>\<open>len\<close>.
  \<open>isspace\<close> is \<^verbatim>\<open>str.isspace\<close> on that range, which is also what \<^verbatim>\<open>\s\<close> matches.
\<close>

definition isspace :: "char \<Rightarrow> bool" where
  "isspace c =
     (let n = (of_char c :: nat)
      in (9 \<le> n \<and> n \<le> 13) \<or> (28 \<le> n \<and> n \<le> 32) \<or> n = 133 \<or> n = 160)"

definition strip :: "string \<Rightarrow> string" where
  "strip s = rev (dropWhile isspace (rev (dropWhile isspace s)))"

definition lower_char :: "char \<Rightarrow> char" where
  "lower_char c =
     (let n = (of_char c :: nat)
      in if (65 \<le> n \<and> n \<le> 90) \<or> (192 \<le> n \<and> n \<le> 214) \<or> (216 \<le> n \<and> n \<le> 222)
         then char_of (n + 32) else c)"

definition lower :: "string \<Rightarrow> string" where
  "lower s = map lower_char s"

text \<open>Python's \<^verbatim>\<open>needle in hay\<close> on strings: a scan for the first position where it starts.\<close>

fun contains :: "string \<Rightarrow> string \<Rightarrow> bool" where
  "contains needle [] = (needle = [])"
| "contains needle (c # cs) = (prefix needle (c # cs) \<or> contains needle cs)"

text \<open>Truthiness of an optional string: neither \<^verbatim>\<open>None\<close> nor empty.\<close>

fun truthy :: "string option \<Rightarrow> bool" where
  "truthy None = False"
| "truthy (Some t) = (t \<noteq> [])"

subsection \<open>Utilities\<close>

text \<open>
  A \<^verbatim>\<open>datetime.date\<close> is its day number (\<^verbatim>\<open>date.toordinal()\<close>): the order of dates is
  the order of day numbers. The record field \<open>date\<close> below keeps the date itself where
  the source stores its ISO text \<^verbatim>\<open>d.isoformat()\<close>, which determines the date.
\<close>

type_synonym date = int

text \<open>
  \<^verbatim>\<open>re.sub(r"Reviewed on\s+", "", text, flags=re.IGNORECASE)\<close>: every leftmost match
  of the phrase, in any letter case, with all the white space after it, is deleted.
\<close>

function remove_reviewed_on :: "string \<Rightarrow> string" where
  "remove_reviewed_on [] = []"
| "remove_reviewed_on (c # cs) =
     (let rest = drop 11 (c # cs)
      in if lower (take 11 (c # cs)) = ''reviewed on'' \<and> rest \<noteq> [] \<and> isspace (hd rest)
         then remove_reviewed_on (dropWhile isspace rest)
         else c # remove_reviewed_on cs)"
  by pat_completeness auto
termination
proof (relation "measure length")
  show "wf (measure (length :: string \<Rightarrow> nat))" by simp
next
  fix c :: char and cs rest
  assume "rest = drop 11 (c # cs)"
  then have "length (dropWhile isspace rest) \<le> length cs"
    using length_dropWhile_le [of isspace rest] by simp
  then show "(dropWhile isspace rest, c # cs) \<in> measure length" by simp
next
  fix c :: char and cs :: string
  show "(cs, c # cs) \<in> measure length" by simp
qed

text \<open>
  \<open>parse_date\<close> is \<^verbatim>\<open>dateutil.parser.parse(_, fuzzy=True).date()\<close>, a library function:
  a parameter of the model, \<open>None\<close> where it raises.
\<close>

definition parse_any_date :: "(string \<Rightarrow> date option) \<Rightarrow> string \<Rightarrow> date option" where
  "parse_any_date parse_date text =
     (if text = [] then None
      else let cleaned = strip (remove_reviewed_on (strip text)) in parse_date cleaned)"

definition in_range :: "date option \<Rightarrow> date \<Rightarrow> date \<Rightarrow> bool" where
  "in_range d start_d end_d = (case d of None \<Rightarrow> False | Some x \<Rightarrow> start_d \<le> x \<and> x \<le> end_d)"

text \<open>The test \<^verbatim>\<open>d and d < start_d\<close> of the G2 adapter (a date is always truthy).\<close>

definition older :: "date option \<Rightarrow> date \<Rightarrow> bool" where
  "older d start_d = (case d of None \<Rightarrow> False | Some x \<Rightarrow> x < start_d)"

definition needles :: "string list" where
  "needles =
     [''captcha'', ''Access Denied'', ''unusual traffic'', ''verify you are human'',
      ''robot'', ''blocked'', ''Cloudflare'', ''Please enable cookies'']"

definition detect_blocked :: "string \<Rightarrow> bool" where
  "detect_blocked html =
     (let low = lower html in list_ex (\<lambda>n. contains (lower n) low) needles)"

subsection \<open>What the browser answers\<close>

datatype exn = PlaywrightTimeoutError | PlaywrightError

datatype wait_until = DomContentLoaded | Load

text \<open>
  A card \<^verbatim>\<open>cards.nth(i)\<close>, by what the calls on \<^verbatim>\<open>card.locator(sel).first\<close> return:
  \<open>inner_text sel\<close> its text, \<open>first_count sel\<close> its \<^verbatim>\<open>count()\<close>, and
  \<open>get_attribute sel a\<close> the attribute \<open>a\<close> (\<open>None\<close> where the element has none).
\<close>

record element =
  inner_text :: "string \<Rightarrow> exn + string"
  first_count :: "string \<Rightarrow> exn + nat"
  get_attribute :: "string \<Rightarrow> string \<Rightarrow> exn + string option"

text \<open>
  A page after \<^verbatim>\<open>page.goto(url, wait_until=w)\<close>: \<open>goto w\<close> is \<open>None\<close> when the
  navigation succeeds, \<open>locator_count sel\<close> is \<^verbatim>\<open>page.locator(sel).count()\<close> inside the
  probe, \<open>content\<close> the markup, and \<open>locator_all sel\<close> the elements that
  \<^verbatim>\<open>page.locator(sel)\<close> matches, in document order.
\<close>

record page =
  goto :: "wait_until \<Rightarrow> exn option"
  locator_count :: "string \<Rightarrow> exn + nat"
  content :: string
  locator_all :: "string \<Rightarrow> element list"

text \<open>The dictionary appended to \<^verbatim>\<open>collected\<close>.\<close>

record review =
  source :: string
  title :: string
  review :: string
  date :: date
  rating :: "string option"

text \<open>
  The state of a run. \<open>collected\<close> and \<open>stop_due_to_old\<close> are the source's variables.
  The other three fields record what the run did: the page numbers fetched, every
  \<^verbatim>\<open>page.goto\<close> call made, and the exit by which the page loop was left:
  \<open>BLOCKED\<close>, \<open>NO_CONTAINERS\<close> and \<open>DATE_BOUNDARY\<close> are its three \<^verbatim>\<open>break\<close>s,
  \<open>MAX_PAGES\<close> is the end of \<^verbatim>\<open>range(1, max_pages + 1)\<close>.
\<close>

datatype stop_reason = NONE | MAX_PAGES | NO_CONTAINERS | BLOCKED | DATE_BOUNDARY

record harvest =
  collected :: "review list"
  stop_due_to_old :: bool
  visited :: "int list"
  gotos :: "(int \<times> wait_until) list"
  stop_reason :: stop_reason

definition start_harvest :: harvest where
  "start_harvest =
     \<lparr>collected = [], stop_due_to_old = False, visited = [], gotos = [], stop_reason = NONE\<rparr>"

subsection \<open>The extraction chains\<close>

text \<open>
  The body chain of both adapters: the first selector whose stripped text is non-empty
  and longer than 20 characters; a selector that raises is passed over.
\<close>

fun first_body :: "element \<Rightarrow> string list \<Rightarrow> string option" where
  "first_body el [] = None"
| "first_body el (sel # sels) =
     (case inner_text el sel of
        Inl _ \<Rightarrow> first_body el sels
      | Inr raw \<Rightarrow>
          (let t = strip raw
           in if t \<noteq> [] \<and> length t > 20 then Some t else first_body el sels))"

text \<open>The date chain: the first selector whose stripped text is non-empty.\<close>

fun first_text :: "element \<Rightarrow> string list \<Rightarrow> string option" where
  "first_text el [] = None"
| "first_text el (sel # sels) =
     (case inner_text el sel of
        Inl _ \<Rightarrow> first_text el sels
      | Inr raw \<Rightarrow> (let t = strip raw in if t \<noteq> [] then Some t else first_text el sels))"

definition card_date :: "(string \<Rightarrow> date option) \<Rightarrow> element \<Rightarrow> string list \<Rightarrow> date option" where
  "card_date parse_date el sels =
     parse_any_date parse_date (case first_text el sels of None \<Rightarrow> [] | Some t \<Rightarrow> t)"

definition card_title :: "element \<Rightarrow> string" where
  "card_title el = (case inner_text el ''h3'' of Inl _ \<Rightarrow> [] | Inr raw \<Rightarrow> strip raw)"

text \<open>
  The rating chain of the G2 adapter; \<open>cur\<close> is the variable \<^verbatim>\<open>rating\<close>. It is assigned before it is tested, so a
  falsy value read from one selector stays unless a later selector assigns again.
\<close>

fun g2_rating :: "element \<Rightarrow> string list \<Rightarrow> string option \<Rightarrow> string option" where
  "g2_rating el [] cur = cur"
| "g2_rating el (sel # sels) cur =
     (case first_count el sel of
        Inl _ \<Rightarrow> g2_rating el sels cur
      | Inr n \<Rightarrow>
          if n = 0 then g2_rating el sels cur
          else (case (if contains ''meta'' sel then get_attribute el sel ''content''
                      else (case inner_text el sel of Inl x \<Rightarrow> Inl x | Inr raw \<Rightarrow> Inr (Some (strip raw)))) of
                  Inl _ \<Rightarrow> g2_rating el sels cur
                | Inr r \<Rightarrow> if truthy r then r else g2_rating el sels r))"

text \<open>
  \<^verbatim>\<open>card_count = min(cards.count(), 60)\<close> and \<^verbatim>\<open>cards.nth(i)\<close> for \<open>i\<close> in
  \<^verbatim>\<open>range(card_count)\<close>.
\<close>

definition capped :: "element list \<Rightarrow> element list" where
  "capped cards = (let card_count = min (length cards) 60 in map (nth cards) [0..<card_count])"

subsection \<open>G2\<close>

definition g2_candidate_waits :: "string list" where
  "g2_candidate_waits =
     [''div.paper'', ''div[data-testid*='review']'', ''article'', ''[itemprop='review']'',
      ''div[class*='review']'']"

definition g2_cards_selector :: string where
  "g2_cards_selector =
     ''div.paper, article, [itemprop='review'], div[data-testid*='review'], div[class*='review']''"

definition g2_body_selectors :: "string list" where
  "g2_body_selectors =
     [''div[itemprop='reviewBody']'', ''[data-testid*='review-text']'',
      ''div[class*='reviewBody']'', ''div[class*='review-body']'', ''p'']"

definition g2_date_selectors :: "string list" where
  "g2_date_selectors =
     [''time'', ''span:has-text('Reviewed on')'', ''div:has-text('Reviewed on')'']"

definition g2_rating_selectors :: "string list" where
  "g2_rating_selectors = [''span[itemprop='ratingValue']'', ''meta[itemprop='ratingValue']'']"

text \<open>
  The navigation of the G2 adapter: a timeout of the first \<^verbatim>\<open>goto\<close> is caught and the
  page is requested once more, waiting for \<^verbatim>\<open>load\<close>; any other exception, and any
  exception of the second call, leaves the function. The result lists the calls made.
\<close>

definition g2_goto :: "page \<Rightarrow> exn + wait_until list" where
  "g2_goto pg =
     (case goto pg DomContentLoaded of
        None \<Rightarrow> Inr [DomContentLoaded]
      | Some PlaywrightTimeoutError \<Rightarrow>
          (case goto pg Load of None \<Rightarrow> Inr [DomContentLoaded, Load] | Some x \<Rightarrow> Inl x)
      | Some x \<Rightarrow> Inl x)"

text \<open>The probe that sets \<^verbatim>\<open>found_any\<close>.\<close>

fun found_any :: "page \<Rightarrow> string list \<Rightarrow> bool" where
  "found_any pg [] = False"
| "found_any pg (sel # sels) =
     (case locator_count pg sel of
        Inl _ \<Rightarrow> found_any pg sels
      | Inr n \<Rightarrow> if n > 0 then True else found_any pg sels)"

text \<open>The body of the loop over the cards of a page.\<close>

definition g2_card ::
  "(string \<Rightarrow> date option) \<Rightarrow> date \<Rightarrow> date \<Rightarrow> element \<Rightarrow> harvest \<Rightarrow> harvest" where
  "g2_card parse_date start_d end_d el h =
     (let body = first_body el g2_body_selectors;
          d = card_date parse_date el g2_date_selectors
      in if older d start_d
         then h\<lparr>stop_due_to_old := True\<rparr>
         else
           (let ttl = card_title el;
                rtg = g2_rating el g2_rating_selectors None
            in if truthy body \<and> in_range d start_d end_d
               then (case (body, d) of
                       (Some b, Some x) \<Rightarrow>
                         h\<lparr>collected := collected h @
                             [\<lparr>source = ''G2'', title = ttl, review = b, date = x,
                               rating = rtg\<rparr>]\<rparr>
                     | _ \<Rightarrow> h)
               else h))"

definition g2_cards :: "page \<Rightarrow> element list" where
  "g2_cards pg = capped (locator_all pg g2_cards_selector)"

text \<open>The loop over the page numbers; \<open>web n\<close> is the page served for page number \<open>n\<close>.\<close>

fun g2_loop ::
  "(string \<Rightarrow> date option) \<Rightarrow> (int \<Rightarrow> page) \<Rightarrow> date \<Rightarrow> date \<Rightarrow> int list \<Rightarrow> harvest
     \<Rightarrow> exn + harvest" where
  "g2_loop parse_date web start_d end_d [] h = Inr (h\<lparr>stop_reason := MAX_PAGES\<rparr>)"
| "g2_loop parse_date web start_d end_d (page_no # rest) h =
     (case g2_goto (web page_no) of
        Inl x \<Rightarrow> Inl x
      | Inr ws \<Rightarrow>
          (let h1 = h\<lparr>visited := visited h @ [page_no],
                      gotos := gotos h @ map (Pair page_no) ws\<rparr>;
               found = found_any (web page_no) g2_candidate_waits;
               html = content (web page_no)
           in if detect_blocked html then Inr (h1\<lparr>stop_reason := BLOCKED\<rparr>)
              else if \<not> found then Inr (h1\<lparr>stop_reason := NO_CONTAINERS\<rparr>)
              else
                (let h2 = fold (g2_card parse_date start_d end_d) (g2_cards (web page_no)) h1
                 in if stop_due_to_old h2 then Inr (h2\<lparr>stop_reason := DATE_BOUNDARY\<rparr>)
                    else g2_loop parse_date web start_d end_d rest h2)))"

definition scrape_g2 ::
  "(string \<Rightarrow> date option) \<Rightarrow> (int \<Rightarrow> page) \<Rightarrow> date \<Rightarrow> date \<Rightarrow> int \<Rightarrow> exn + harvest" where
  "scrape_g2 parse_date web start_d end_d max_pages =
     g2_loop parse_date web start_d end_d [1..max_pages] start_harvest"

subsection \<open>TrustRadius\<close>

definition tr_cards_selector :: string where
  "tr_cards_selector = ''article, div.review, [data-testid*='review']''"

definition tr_body_selectors :: "string list" where
  "tr_body_selectors = [''p'', ''div[class*='review']'', ''div[class*='content']'']"

definition tr_date_selectors :: "string list" where
  "tr_date_selectors = [''time'', ''span:has-text(', 20')'', ''div:has-text(', 20')'']"

definition tr_card ::
  "(string \<Rightarrow> date option) \<Rightarrow> date \<Rightarrow> date \<Rightarrow> element \<Rightarrow> harvest \<Rightarrow> harvest" where
  "tr_card parse_date start_d end_d el h =
     (let body = first_body el tr_body_selectors;
          d = card_date parse_date el tr_date_selectors
      in if truthy body \<and> in_range d start_d end_d
         then (let ttl = card_title el
               in case (body, d) of
                    (Some b, Some x) \<Rightarrow>
                      h\<lparr>collected := collected h @
                          [\<lparr>source = ''TrustRadius'', title = ttl, review = b, date = x,
                            rating = None\<rparr>]\<rparr>
                  | _ \<Rightarrow> h)
         else h)"

fun tr_loop ::
  "(string \<Rightarrow> date option) \<Rightarrow> (int \<Rightarrow> page) \<Rightarrow> date \<Rightarrow> date \<Rightarrow> int list \<Rightarrow> harvest
     \<Rightarrow> exn + harvest" where
  "tr_loop parse_date web start_d end_d [] h = Inr (h\<lparr>stop_reason := MAX_PAGES\<rparr>)"
| "tr_loop parse_date web start_d end_d (page_no # rest) h =
     (case goto (web page_no) DomContentLoaded of
        Some x \<Rightarrow> Inl x
      | None \<Rightarrow>
          (let h1 = h\<lparr>visited := visited h @ [page_no],
                      gotos := gotos h @ [(page_no, DomContentLoaded)]\<rparr>;
               cards = locator_all (web page_no) tr_cards_selector
           in if length cards = 0 then Inr (h1\<lparr>stop_reason := NO_CONTAINERS\<rparr>)
              else tr_loop parse_date web start_d end_d rest
                     (fold (tr_card parse_date start_d end_d) (capped cards) h1)))"

definition scrape_trustradius ::
  "(string \<Rightarrow> date option) \<Rightarrow> (int \<Rightarrow> page) \<Rightarrow> date \<Rightarrow> date \<Rightarrow> int \<Rightarrow> exn + harvest" where
  "scrape_trustradius parse_date web start_d end_d max_pages =
     tr_loop parse_date web start_d end_d [1..max_pages] start_harvest"

subsection \<open>Capterra and the command line\<close>

definition scrape_capterra ::
  "string \<Rightarrow> date \<Rightarrow> date \<Rightarrow> bool \<Rightarrow> bool \<Rightarrow> int \<Rightarrow> review list" where
  "scrape_capterra company_id start_d end_d debug_html headless slow_mo = []"

text \<open>\<^verbatim>\<open>--max_pages\<close> of \<^verbatim>\<open>main\<close>: an integer, 10 when the option is not given.\<close>

definition arg_max_pages :: "int option \<Rightarrow> int" where
  "arg_max_pages given = (case given of None \<Rightarrow> 10 | Some n \<Rightarrow> n)"

subsection \<open>What a card and a page contribute\<close>

text \<open>
  Names for stating the properties of the loops. What a card emits is what the loop body
  appends to an empty \<open>collected\<close>; a card is old when the body sets the flag on it.
\<close>

definition g2_emit :: "(string \<Rightarrow> date option) \<Rightarrow> date \<Rightarrow> date \<Rightarrow> element \<Rightarrow> review list" where
  "g2_emit parse_date start_d end_d el =
     collected (g2_card parse_date start_d end_d el start_harvest)"

definition g2_old :: "(string \<Rightarrow> date option) \<Rightarrow> date \<Rightarrow> element \<Rightarrow> bool" where
  "g2_old parse_date start_d el = older (card_date parse_date el g2_date_selectors) start_d"

definition tr_emit :: "(string \<Rightarrow> date option) \<Rightarrow> date \<Rightarrow> date \<Rightarrow> element \<Rightarrow> review list" where
  "tr_emit parse_date start_d end_d el =
     collected (tr_card parse_date start_d end_d el start_harvest)"

text \<open>
  A page of the G2 run ends the run when one of the three \<^verbatim>\<open>break\<close>s is taken on it;
  \<open>g2_page_reason\<close> is the first of them in the order the source tests them.
\<close>

definition g2_halts :: "(string \<Rightarrow> date option) \<Rightarrow> date \<Rightarrow> page \<Rightarrow> bool" where
  "g2_halts parse_date start_d pg =
     (detect_blocked (content pg) \<or> \<not> found_any pg g2_candidate_waits
      \<or> list_ex (g2_old parse_date start_d) (g2_cards pg))"

definition g2_page_reason :: "page \<Rightarrow> stop_reason" where
  "g2_page_reason pg =
     (if detect_blocked (content pg) then BLOCKED
      else if \<not> found_any pg g2_candidate_waits then NO_CONTAINERS else DATE_BOUNDARY)"

definition g2_page_emit ::
  "(string \<Rightarrow> date option) \<Rightarrow> date \<Rightarrow> date \<Rightarrow> page \<Rightarrow> review list" where
  "g2_page_emit parse_date start_d end_d pg =
     (if detect_blocked (content pg) \<or> \<not> found_any pg g2_candidate_waits then []
      else concat (map (g2_emit parse_date start_d end_d) (g2_cards pg)))"

definition g2_attempts :: "int \<Rightarrow> page \<Rightarrow> (int \<times> wait_until) list" where
  "g2_attempts n pg = (case g2_goto pg of Inl _ \<Rightarrow> [] | Inr ws \<Rightarrow> map (Pair n) ws)"

text \<open>
  The shape of a G2 run that returns \<open>r\<close> from state \<open>h\<close> over the page numbers \<open>ns\<close>,
  having fetched the pages \<open>vs\<close>.
\<close>

definition g2_outcome ::
  "(string \<Rightarrow> date option) \<Rightarrow> (int \<Rightarrow> page) \<Rightarrow> date \<Rightarrow> date \<Rightarrow> int list \<Rightarrow> harvest
     \<Rightarrow> harvest \<Rightarrow> int list \<Rightarrow> bool" where
  "g2_outcome parse_date web start_d end_d ns h r vs =
     (prefix vs ns
      \<and> visited r = visited h @ vs
      \<and> collected r =
          collected h @ concat (map (\<lambda>n. g2_page_emit parse_date start_d end_d (web n)) vs)
      \<and> gotos r = gotos h @ concat (map (\<lambda>n. g2_attempts n (web n)) vs)
      \<and> list_all (\<lambda>n. \<not> isl (g2_goto (web n))) vs
      \<and> list_all (\<lambda>n. \<not> g2_halts parse_date start_d (web n)) (butlast vs)
      \<and> (if vs \<noteq> [] \<and> g2_halts parse_date start_d (web (last vs))
         then stop_reason r = g2_page_reason (web (last vs))
         else vs = ns \<and> stop_reason r = MAX_PAGES))"

definition tr_page_emit ::
  "(string \<Rightarrow> date option) \<Rightarrow> date \<Rightarrow> date \<Rightarrow> page \<Rightarrow> review list" where
  "tr_page_emit parse_date start_d end_d pg =
     concat (map (tr_emit parse_date start_d end_d) (capped (locator_all pg tr_cards_selector)))"

definition tr_outcome ::
  "(string \<Rightarrow> date option) \<Rightarrow> (int \<Rightarrow> page) \<Rightarrow> date \<Rightarrow> date \<Rightarrow> int list \<Rightarrow> harvest
     \<Rightarrow> harvest \<Rightarrow> int list \<Rightarrow> bool" where
  "tr_outcome parse_date web start_d end_d ns h r vs =
     (prefix vs ns
      \<and> visited r = visited h @ vs
      \<and> collected r =
          collected h @ concat (map (\<lambda>n. tr_page_emit parse_date start_d end_d (web n)) vs)
      \<and> gotos r = gotos h @ map (\<lambda>n. (n, DomContentLoaded)) vs
      \<and> list_all (\<lambda>n. goto (web n) DomContentLoaded = None) vs
      \<and> list_all (\<lambda>n. locator_all (web n) tr_cards_selector \<noteq> []) (butlast vs)
      \<and> (if vs \<noteq> [] \<and> locator_all (web (last vs)) tr_cards_selector = []
         then stop_reason r = NO_CONTAINERS
         else vs = ns \<and> stop_reason r = MAX_PAGES))"

subsection \<open>Example pages\<close>

text \<open>
  A small site for running the adapters: a parser that knows five dates (1 January 2024
  is day 738886, 31 March 2024 is day 738976), cards with a paragraph, a
  \<^verbatim>\<open>time\<close> element, a heading and a rating, and pages that answer every selector with
  the same cards.
\<close>

definition demo_parse :: "string \<Rightarrow> date option" where
  "demo_parse t =
     (if t = ''Apr 5, 2024'' then Some 738981
      else if t = ''Mar 10, 2024'' then Some 738955
      else if t = ''Feb 1, 2024'' then Some 738917
      else if t = ''Dec 15, 2023'' then Some 738869
      else if t = ''Nov 20, 2023'' then Some 738844
      else None)"

definition demo_card :: "string \<Rightarrow> string \<Rightarrow> element" where
  "demo_card body date_text =
     \<lparr>inner_text =
        (\<lambda>sel. if sel = ''p'' then Inr body
              else if sel = ''time'' then Inr date_text
              else if sel = ''h3'' then Inr '' A title ''
              else if sel = ''span[itemprop='ratingValue']'' then Inr ''4.5''
              else Inl PlaywrightTimeoutError),
      first_count = (\<lambda>sel. if sel = ''span[itemprop='ratingValue']'' then Inr 1 else Inr 0),
      get_attribute = (\<lambda>sel a. Inr None)\<rparr>"

definition demo_page :: "(wait_until \<Rightarrow> exn option) \<Rightarrow> string \<Rightarrow> element list \<Rightarrow> page" where
  "demo_page nav html cards =
     \<lparr>goto = nav, locator_count = (\<lambda>sel. Inr (length cards)), content = html,
      locator_all = (\<lambda>sel. cards)\<rparr>"

definition nav_ok :: "wait_until \<Rightarrow> exn option" where
  "nav_ok w = None"



definition card_mar :: element where
  "card_mar = demo_card ''Great product, we use it every day.'' ''Reviewed on  Mar 10, 2024''"

definition card_feb :: element where
  "card_feb = demo_card ''Solid tool with a few rough edges.'' ''Feb 1, 2024''"

definition card_dec :: element where
  "card_dec = demo_card ''It was fine back then, I suppose.'' ''Dec 15, 2023''"

definition card_nov :: element where
  "card_nov = demo_card ''An even older review of the product.'' ''Nov 20, 2023''"


definition card_undated :: element where
  "card_undated = demo_card ''A long enough body without any date.'' ''some time ago''"

definition card_short :: element where
  "card_short = demo_card ''12345678901234567890'' ''Feb 1, 2024''"

text \<open>Reviews newest first: two in the window on page 1, older ones from page 2 on.\<close>

definition demo_web :: "int \<Rightarrow> page" where
  "demo_web n =
     (if n = 1 then demo_page nav_ok ''<html>reviews</html>'' [card_mar, card_feb]
      else if n = 2 then demo_page nav_ok ''<html>reviews</html>'' [card_dec]
      else demo_page nav_ok ''<html>reviews</html>'' [card_nov])"




text \<open>An interstitial without any review container, and one with a container.\<close>

definition captcha_web :: "int \<Rightarrow> page" where
  "captcha_web n = demo_page nav_ok ''<html>Please solve the CAPTCHA</html>'' []"

definition denied_web :: "int \<Rightarrow> page" where
  "denied_web n = demo_page nav_ok ''<html>Access Denied</html>'' [card_feb]"

text \<open>Reviews on page 1, an interstitial holding a review container on page 2.\<close>

definition wall_web :: "int \<Rightarrow> page" where
  "wall_web n =
     (if n = 1 then demo_page nav_ok ''<html>reviews</html>'' [card_mar]
      else demo_page nav_ok ''<html>Access Denied</html>'' [card_feb])"

text \<open>A page with no container and ordinary markup.\<close>

definition empty_web :: "int \<Rightarrow> page" where
  "empty_web n = demo_page nav_ok ''<html>nothing here</html>'' []"

text \<open>A page with a card whose body has 20 characters and a card without a date.\<close>

definition odd_web :: "int \<Rightarrow> page" where
  "odd_web n = demo_page nav_ok ''<html>reviews</html>'' [card_short, card_undated, card_mar]"

section \<open>Properties\<close>

subsection \<open>Cards\<close>

lemma capped_take: "capped cards = take 60 cards"
  by (auto simp: capped_def Let_def list_eq_iff_nth_eq)

lemma length_capped: "length (capped cards) \<le> 60"
  by (simp add: capped_take)

lemma first_body_Some: "first_body el sels = Some b \<Longrightarrow> 20 < length b"
  by (induction sels) (auto simp: Let_def split: sum.splits if_splits)

lemma g2_card_collected:
  "collected (g2_card pd s e el h) = collected h @ g2_emit pd s e el"
  by (simp add: g2_card_def g2_emit_def start_harvest_def Let_def split: option.splits)

lemma g2_card_flag:
  "stop_due_to_old (g2_card pd s e el h) = (stop_due_to_old h \<or> g2_old pd s el)"
  by (simp add: g2_card_def g2_old_def Let_def split: option.splits)

lemma g2_card_trace:
  "visited (g2_card pd s e el h) = visited h"
  "gotos (g2_card pd s e el h) = gotos h"
  "stop_reason (g2_card pd s e el h) = stop_reason h"
  by (simp_all add: g2_card_def Let_def split: option.splits)

lemma g2_fold_collected:
  "collected (fold (g2_card pd s e) cs h) = collected h @ concat (map (g2_emit pd s e) cs)"
  by (induction cs arbitrary: h) (simp_all add: g2_card_collected)

lemma g2_fold_flag:
  "stop_due_to_old (fold (g2_card pd s e) cs h)
     = (stop_due_to_old h \<or> (\<exists>c\<in>set cs. g2_old pd s c))"
  by (induction cs arbitrary: h) (auto simp: g2_card_flag)

lemma g2_fold_trace:
  "visited (fold (g2_card pd s e) cs h) = visited h"
  "gotos (fold (g2_card pd s e) cs h) = gotos h"
  "stop_reason (fold (g2_card pd s e) cs h) = stop_reason h"
  by (induction cs arbitrary: h) (simp_all add: g2_card_trace)

lemma g2_emit_cases:
  "g2_emit pd s e el = [] \<or>
   (\<exists>b x. first_body el g2_body_selectors = Some b \<and> card_date pd el g2_date_selectors = Some x
      \<and> s \<le> x \<and> x \<le> e
      \<and> g2_emit pd s e el =
          [\<lparr>source = ''G2'', title = card_title el, review = b, date = x,
            rating = g2_rating el g2_rating_selectors None\<rparr>])"
  by (auto simp: g2_emit_def g2_card_def start_harvest_def Let_def in_range_def older_def
      split: option.splits)

lemma g2_emit_kept:
  "first_body el g2_body_selectors = Some b \<Longrightarrow> card_date pd el g2_date_selectors = Some x
     \<Longrightarrow> s \<le> x \<Longrightarrow> x \<le> e
     \<Longrightarrow> g2_emit pd s e el =
          [\<lparr>source = ''G2'', title = card_title el, review = b, date = x,
            rating = g2_rating el g2_rating_selectors None\<rparr>]"
  using first_body_Some [of el g2_body_selectors b]
  by (auto simp: g2_emit_def g2_card_def start_harvest_def Let_def in_range_def older_def)

lemma tr_card_collected:
  "collected (tr_card pd s e el h) = collected h @ tr_emit pd s e el"
  by (simp add: tr_card_def tr_emit_def start_harvest_def Let_def split: option.splits)

lemma tr_card_trace:
  "stop_due_to_old (tr_card pd s e el h) = stop_due_to_old h"
  "visited (tr_card pd s e el h) = visited h"
  "gotos (tr_card pd s e el h) = gotos h"
  "stop_reason (tr_card pd s e el h) = stop_reason h"
  by (simp_all add: tr_card_def Let_def split: option.splits)

lemma tr_fold_collected:
  "collected (fold (tr_card pd s e) cs h) = collected h @ concat (map (tr_emit pd s e) cs)"
  by (induction cs arbitrary: h) (simp_all add: tr_card_collected)

lemma tr_fold_trace:
  "stop_due_to_old (fold (tr_card pd s e) cs h) = stop_due_to_old h"
  "visited (fold (tr_card pd s e) cs h) = visited h"
  "gotos (fold (tr_card pd s e) cs h) = gotos h"
  "stop_reason (fold (tr_card pd s e) cs h) = stop_reason h"
  by (induction cs arbitrary: h) (simp_all add: tr_card_trace)

lemma tr_emit_cases:
  "tr_emit pd s e el = [] \<or>
   (\<exists>b x. first_body el tr_body_selectors = Some b \<and> card_date pd el tr_date_selectors = Some x
      \<and> s \<le> x \<and> x \<le> e
      \<and> tr_emit pd s e el =
          [\<lparr>source = ''TrustRadius'', title = card_title el, review = b, date = x,
            rating = None\<rparr>])"
  by (auto simp: tr_emit_def tr_card_def start_harvest_def Let_def in_range_def
      split: option.splits)

subsection \<open>The page loops\<close>

lemma g2_loop_outcome:
  "g2_loop pd web s e ns h = Inr r \<Longrightarrow> \<not> stop_due_to_old h
     \<Longrightarrow> \<exists>vs. g2_outcome pd web s e ns h r vs"
proof (induction ns arbitrary: h)
  case Nil
  then have "g2_outcome pd web s e [] h r []"
    by (auto simp: g2_outcome_def)
  then show ?case ..
next
  case (Cons n ns)
  from Cons.prems(1) obtain ws where ws: "g2_goto (web n) = Inr ws"
    by (auto split: sum.splits)
  let ?h1 = "h\<lparr>visited := visited h @ [n], gotos := gotos h @ map (Pair n) ws\<rparr>"
  let ?h2 = "fold (g2_card pd s e) (g2_cards (web n)) ?h1"
  show ?case
  proof (cases "g2_halts pd s (web n)")
    case True
    with Cons.prems ws have "g2_outcome pd web s e (n # ns) h r [n]"
      by (auto simp: g2_outcome_def g2_halts_def g2_page_reason_def g2_page_emit_def
          g2_attempts_def Let_def g2_fold_flag g2_fold_collected g2_fold_trace list_ex_iff
          split: if_splits)
    then show ?thesis ..
  next
    case False
    then have nb: "\<not> detect_blocked (content (web n))" "found_any (web n) g2_candidate_waits"
      and nf: "\<not> stop_due_to_old ?h2"
      using Cons.prems(2) by (auto simp: g2_halts_def g2_fold_flag list_ex_iff)
    from Cons.prems(1) ws nb nf have "g2_loop pd web s e ns ?h2 = Inr r"
      by (simp add: Let_def)
    from Cons.IH [OF this nf] obtain vs where vs: "g2_outcome pd web s e ns ?h2 r vs" ..
    have "g2_outcome pd web s e (n # ns) h r (n # vs)"
      using vs False ws nb
      by (auto simp: g2_outcome_def g2_fold_collected g2_fold_trace g2_page_emit_def
          g2_attempts_def split: if_splits)
    then show ?thesis ..
  qed
qed


lemma tr_loop_outcome:
  "tr_loop pd web s e ns h = Inr r \<Longrightarrow> \<exists>vs. tr_outcome pd web s e ns h r vs"
proof (induction ns arbitrary: h)
  case Nil
  then have "tr_outcome pd web s e [] h r []"
    by (auto simp: tr_outcome_def)
  then show ?case ..
next
  case (Cons n ns)
  from Cons.prems have nav: "goto (web n) DomContentLoaded = None"
    by (auto split: option.splits)
  let ?h1 = "h\<lparr>visited := visited h @ [n], gotos := gotos h @ [(n, DomContentLoaded)]\<rparr>"
  let ?cards = "locator_all (web n) tr_cards_selector"
  show ?case
  proof (cases "?cards = []")
    case True
    with Cons.prems nav have "tr_outcome pd web s e (n # ns) h r [n]"
      by (auto simp: tr_outcome_def tr_page_emit_def capped_take Let_def)
    then show ?thesis ..
  next
    case False
    with Cons.prems nav
    have "tr_loop pd web s e ns (fold (tr_card pd s e) (capped ?cards) ?h1) = Inr r"
      by (simp add: Let_def)
    from Cons.IH [OF this] obtain vs
      where vs: "tr_outcome pd web s e ns (fold (tr_card pd s e) (capped ?cards) ?h1) r vs" ..
    have "tr_outcome pd web s e (n # ns) h r (n # vs)"
      using vs False nav
      by (auto simp: tr_outcome_def tr_fold_collected tr_fold_trace tr_page_emit_def
          split: if_splits)
    then show ?thesis ..
  qed
qed

subsection \<open>Page numbers\<close>

lemma prefix_upto:
  "prefix vs [i..j] \<Longrightarrow> vs \<noteq> [] \<Longrightarrow> vs = [i..last vs]"
proof (induction vs arbitrary: i)
  case Nil
  then show ?case by simp
next
  case (Cons v vs)
  from Cons.prems(1) have ij: "i \<le> j" by (cases "i \<le> j") auto
  with Cons.prems(1) have v: "v = i" and p: "prefix vs [i + 1..j]"
    by (simp_all add: upto_rec1 [of i j])
  show ?case
  proof (cases "vs = []")
    case True
    with v show ?thesis by simp
  next
    case False
    from Cons.IH [OF p False] have eq: "vs = [i + 1..last vs]" .
    with False have "i + 1 \<le> last vs" by (cases "i + 1 \<le> last vs") auto
    then have "[i..last vs] = i # [i + 1..last vs]" by (simp add: upto_rec1)
    with eq v False show ?thesis by simp
  qed
qed

lemma length_concat_le:
  "(\<And>x. x \<in> set xs \<Longrightarrow> length (f x) \<le> k) \<Longrightarrow> length (concat (map f xs)) \<le> k * length xs"
  by (induction xs) (auto simp: add_mono)

lemma length_concat_le1:
  "(\<And>x. length (f x) \<le> 1) \<Longrightarrow> length (concat (map f xs)) \<le> length xs"
  using length_concat_le [of xs f 1] by simp

lemma last_not_butlast:
  "distinct vs \<Longrightarrow> k \<in> set vs \<Longrightarrow> k \<notin> set (butlast vs) \<Longrightarrow> last vs = k"
  by (induction vs) (auto split: if_splits)

subsection \<open>Whole runs\<close>

lemma g2_run:
  assumes "scrape_g2 pd web s e mp = Inr r"
  shows "g2_outcome pd web s e [1..mp] start_harvest r (visited r)"
proof -
  from assms have "g2_loop pd web s e [1..mp] start_harvest = Inr r"
    by (simp add: scrape_g2_def)
  moreover have "\<not> stop_due_to_old start_harvest"
    by (simp add: start_harvest_def)
  ultimately obtain vs where vs: "g2_outcome pd web s e [1..mp] start_harvest r vs"
    using g2_loop_outcome by blast
  then have "visited r = vs"
    by (simp add: g2_outcome_def start_harvest_def)
  with vs show ?thesis by simp
qed

lemma tr_run:
  assumes "scrape_trustradius pd web s e mp = Inr r"
  shows "tr_outcome pd web s e [1..mp] start_harvest r (visited r)"
proof -
  from assms have "tr_loop pd web s e [1..mp] start_harvest = Inr r"
    by (simp add: scrape_trustradius_def)
  then obtain vs where vs: "tr_outcome pd web s e [1..mp] start_harvest r vs"
    using tr_loop_outcome by blast
  then have "visited r = vs"
    by (simp add: tr_outcome_def start_harvest_def)
  with vs show ?thesis by simp
qed

lemma g2_collected:
  "scrape_g2 pd web s e mp = Inr r
     \<Longrightarrow> collected r = concat (map (\<lambda>n. g2_page_emit pd s e (web n)) (visited r))"
  using g2_run [of pd web s e mp r] by (simp add: g2_outcome_def start_harvest_def)

lemma tr_collected:
  "scrape_trustradius pd web s e mp = Inr r
     \<Longrightarrow> collected r = concat (map (\<lambda>n. tr_page_emit pd s e (web n)) (visited r))"
  using tr_run [of pd web s e mp r] by (simp add: tr_outcome_def start_harvest_def)

lemma g2_collected_from:
  assumes "scrape_g2 pd web s e mp = Inr r" and "rec \<in> set (collected r)"
  shows "\<exists>el. rec \<in> set (g2_emit pd s e el)"
  using assms(2) unfolding g2_collected [OF assms(1)]
  by (auto simp: g2_page_emit_def split: if_splits)

lemma tr_collected_from:
  assumes "scrape_trustradius pd web s e mp = Inr r" and "rec \<in> set (collected r)"
  shows "\<exists>el. rec \<in> set (tr_emit pd s e el)"
  using assms(2) unfolding tr_collected [OF assms(1)]
  by (auto simp: tr_page_emit_def)

lemma g2_emit_member:
  assumes "rec \<in> set (g2_emit pd s e el)"
  shows "s \<le> date rec" and "date rec \<le> e" and "20 < length (review rec)"
  using assms g2_emit_cases [of pd s e el] first_body_Some [of el g2_body_selectors]
  by auto

lemma tr_emit_member:
  assumes "rec \<in> set (tr_emit pd s e el)"
  shows "s \<le> date rec" and "date rec \<le> e" and "20 < length (review rec)"
    and "rating rec = None"
  using assms tr_emit_cases [of pd s e el] first_body_Some [of el tr_body_selectors]
  by auto

lemma g2_card_undated:
  "card_date pd el g2_date_selectors = None \<Longrightarrow> g2_card pd s e el h = h"
  by (simp add: g2_card_def Let_def older_def in_range_def)

lemma tr_card_undated:
  "card_date pd el tr_date_selectors = None \<Longrightarrow> tr_card pd s e el h = h"
  by (simp add: tr_card_def Let_def in_range_def)

subsection \<open>The example runs\<close>

lemma demo_g2_run:
  "scrape_g2 demo_parse demo_web 738886 738976 10 =
     Inr \<lparr>collected =
            [\<lparr>source = ''G2'', title = ''A title'',
              review = ''Great product, we use it every day.'', date = 738955,
              rating = Some ''4.5''\<rparr>,
             \<lparr>source = ''G2'', title = ''A title'',
              review = ''Solid tool with a few rough edges.'', date = 738917,
              rating = Some ''4.5''\<rparr>],
          stop_due_to_old = True, visited = [1, 2],
          gotos = [(1, DomContentLoaded), (2, DomContentLoaded)],
          stop_reason = DATE_BOUNDARY\<rparr>"
  by code_simp

lemma demo_tr_run:
  "scrape_trustradius demo_parse demo_web 738886 738976 3 =
     Inr \<lparr>collected =
            [\<lparr>source = ''TrustRadius'', title = ''A title'',
              review = ''Great product, we use it every day.'', date = 738955,
              rating = None\<rparr>,
             \<lparr>source = ''TrustRadius'', title = ''A title'',
              review = ''Solid tool with a few rough edges.'', date = 738917,
              rating = None\<rparr>],
          stop_due_to_old = False, visited = [1, 2, 3],
          gotos = [(1, DomContentLoaded), (2, DomContentLoaded), (3, DomContentLoaded)],
          stop_reason = MAX_PAGES\<rparr>"
  by code_simp

lemma length_g2_emit: "length (g2_emit pd s e el) \<le> 1"
  using g2_emit_cases [of pd s e el] by auto

lemma length_tr_emit: "length (tr_emit pd s e el) \<le> 1"
  using tr_emit_cases [of pd s e el] by auto

lemma length_g2_cards: "length (g2_cards pg) \<le> 60"
  by (simp add: g2_cards_def length_capped)

lemma length_g2_page_emit: "length (g2_page_emit pd s e pg) \<le> 60"
proof -
  have "length (concat (map (g2_emit pd s e) (g2_cards pg))) \<le> length (g2_cards pg)"
    by (rule length_concat_le1) (rule length_g2_emit)
  with length_g2_cards [of pg] show ?thesis
    by (simp add: g2_page_emit_def)
qed

lemma length_tr_page_emit: "length (tr_page_emit pd s e pg) \<le> 60"
proof -
  let ?cards = "capped (locator_all pg tr_cards_selector)"
  have "length (concat (map (tr_emit pd s e) ?cards)) \<le> length ?cards"
    by (rule length_concat_le1) (rule length_tr_emit)
  with length_capped [of "locator_all pg tr_cards_selector"] show ?thesis
    by (simp add: tr_page_emit_def)
qed

lemma length_prefix_upto: "prefix vs [1..mp] \<Longrightarrow> length vs \<le> nat mp"
  using prefix_length_le [of vs "[1..mp]"] by simp

lemma g2_visited_prefix: "scrape_g2 pd web s e mp = Inr r \<Longrightarrow> prefix (visited r) [1..mp]"
  using g2_run [of pd web s e mp r] by (simp add: g2_outcome_def)

lemma tr_visited_prefix:
  "scrape_trustradius pd web s e mp = Inr r \<Longrightarrow> prefix (visited r) [1..mp]"
  using tr_run [of pd web s e mp r] by (simp add: tr_outcome_def)

lemma g2_length_collected:
  assumes "scrape_g2 pd web s e mp = Inr r"
  shows "length (collected r) \<le> 60 * length (visited r)"
  unfolding g2_collected [OF assms]
  by (rule length_concat_le) (rule length_g2_page_emit)

lemma tr_length_collected:
  assumes "scrape_trustradius pd web s e mp = Inr r"
  shows "length (collected r) \<le> 60 * length (visited r)"
  unfolding tr_collected [OF assms]
  by (rule length_concat_le) (rule length_tr_page_emit)

lemma first_body_Cons_Inr:
  "inner_text el sel = Inr raw \<Longrightarrow>
     first_body el (sel # sels)
       = (if 20 < length (strip raw) then Some (strip raw) else first_body el sels)"
  by (auto simp: Let_def)

subsection \<open>The blocked-page detector\<close>

lemma contains_sublist: "contains needle hay = sublist needle hay"
  by (induction hay) (simp_all add: sublist_Cons_right)

lemma sublist_lower:
  "sublist (lower n) (lower hay) = (\<exists>u. sublist u hay \<and> lower u = lower n)"
proof
  assume "sublist (lower n) (lower hay)"
  then obtain ps ss where eq: "map lower_char hay = ps @ (map lower_char n @ ss)"
    by (auto simp: sublist_def lower_def)
  from eq [unfolded map_eq_append_conv] obtain ps' rest
    where hay: "hay = ps' @ rest" and rest: "map lower_char n @ ss = map lower_char rest"
    by blast
  from rest [unfolded append_eq_map_conv] obtain u ss'
    where r: "rest = u @ ss'" and u: "map lower_char n = map lower_char u"
    by blast
  from hay r have "sublist u hay"
    unfolding sublist_def by blast
  with u have "sublist u hay \<and> lower u = lower n"
    by (simp add: lower_def)
  then show "\<exists>u. sublist u hay \<and> lower u = lower n" ..
next
  assume "\<exists>u. sublist u hay \<and> lower u = lower n"
  then obtain u ps ss where "hay = ps @ u @ ss" and "lower u = lower n"
    by (auto simp: sublist_def)
  then have "lower hay = lower ps @ lower n @ lower ss"
    by (simp add: lower_def)
  then show "sublist (lower n) (lower hay)"
    unfolding sublist_def by blast
qed

lemma detect_blocked_iff:
  "detect_blocked html = (\<exists>n\<in>set needles. sublist (lower n) (lower html))"
  by (simp add: detect_blocked_def Let_def list_ex_iff contains_sublist)

subsection \<open>Where a G2 run ends\<close>

lemma distinct_prefix_upto: "prefix vs [i..j] \<Longrightarrow> distinct vs"
proof -
  assume "prefix vs [i..j]"
  then obtain zs where "[i..j] = vs @ zs" by (auto simp: prefix_def)
  then have "distinct (vs @ zs)" by (metis distinct_upto)
  then show ?thesis by simp
qed

lemma g2_halting_page:
  assumes run: "scrape_g2 pd web s e mp = Inr r"
    and k: "k \<in> set (visited r)" and halts: "g2_halts pd s (web k)"
  shows "last (visited r) = k" and "visited r = [1..k]"
    and "stop_reason r = g2_page_reason (web k)"
proof -
  note out = g2_run [OF run, unfolded g2_outcome_def]
  from out have p: "prefix (visited r) [1..mp]" by simp
  from out have "\<forall>n\<in>set (butlast (visited r)). \<not> g2_halts pd s (web n)"
    by (simp add: list_all_iff)
  with halts have "k \<notin> set (butlast (visited r))" by blast
  with distinct_prefix_upto [OF p] k show l: "last (visited r) = k"
    by (rule last_not_butlast)
  from k have ne: "visited r \<noteq> []" by auto
  from prefix_upto [OF p ne] l show "visited r = [1..k]" by simp
  from out ne l halts show "stop_reason r = g2_page_reason (web k)" by simp
qed


lemma g2_stop_reason_cases:
  assumes run: "scrape_g2 pd web s e mp = Inr r"
  shows "(visited r \<noteq> [] \<and> g2_halts pd s (web (last (visited r)))
            \<and> stop_reason r = g2_page_reason (web (last (visited r))))
         \<or> ((visited r = [] \<or> \<not> g2_halts pd s (web (last (visited r))))
            \<and> stop_reason r = MAX_PAGES)"
  using g2_run [OF run, unfolded g2_outcome_def] by (auto split: if_splits)

lemma g2_old_iff:
  "g2_old pd s el = (\<exists>x. card_date pd el g2_date_selectors = Some x \<and> x < s)"
  by (auto simp: g2_old_def older_def split: option.splits)

lemma g2_halts_iff:
  "g2_halts pd s pg =
     (detect_blocked (content pg) \<or> \<not> found_any pg g2_candidate_waits
      \<or> (\<exists>c\<in>set (g2_cards pg). \<exists>x. card_date pd c g2_date_selectors = Some x \<and> x < s))"
  by (simp add: g2_halts_def list_ex_iff g2_old_iff)

lemma g2_card_old:
  "card_date pd el g2_date_selectors = Some x \<Longrightarrow> x < s
     \<Longrightarrow> g2_card pd s e el h = h\<lparr>stop_due_to_old := True\<rparr>"
  by (simp add: g2_card_def Let_def older_def)




lemma denied_g2_run:
  "scrape_g2 demo_parse denied_web 738886 738976 2 =
     Inr \<lparr>collected = [], stop_due_to_old = False, visited = [1],
          gotos = [(1, DomContentLoaded)], stop_reason = BLOCKED\<rparr>"
  by code_simp

lemma captcha_g2_run:
  "scrape_g2 demo_parse captcha_web 738886 738976 2 =
     Inr \<lparr>collected = [], stop_due_to_old = False, visited = [1],
          gotos = [(1, DomContentLoaded)], stop_reason = BLOCKED\<rparr>"
  by code_simp

lemma empty_g2_run:
  "scrape_g2 demo_parse empty_web 738886 738976 2 =
     Inr \<lparr>collected = [], stop_due_to_old = False, visited = [1],
          gotos = [(1, DomContentLoaded)], stop_reason = NO_CONTAINERS\<rparr>"
  by code_simp

lemma wall_g2_run:
  "scrape_g2 demo_parse wall_web 738886 738976 3 =
     Inr \<lparr>collected = [\<lparr>source = ''G2'', title = ''A title'', review = ''Great product, we use it every day.'',
                        date = 738955, rating = Some ''4.5''\<rparr>],
          stop_due_to_old = False, visited = [1, 2],
          gotos = [(1, DomContentLoaded), (2, DomContentLoaded)], stop_reason = BLOCKED\<rparr>"
  by code_simp

lemma g2_page_record_kept:
  assumes run: "scrape_g2 pd web s e mp = Inr r"
    and k: "k \<in> set (visited r)"
    and page: "\<not> detect_blocked (content (web k))" "found_any (web k) g2_candidate_waits"
    and c: "c \<in> set (g2_cards (web k))"
    and body: "first_body c g2_body_selectors = Some b"
    and d: "card_date pd c g2_date_selectors = Some y" and win: "s \<le> y" "y \<le> e"
  shows "\<lparr>source = ''G2'', title = card_title c, review = b, date = y,
           rating = g2_rating c g2_rating_selectors None\<rparr> \<in> set (collected r)"
proof -
  let ?rec = "\<lparr>source = ''G2'', title = card_title c, review = b, date = y,
           rating = g2_rating c g2_rating_selectors None\<rparr>"
  from g2_emit_kept [OF body d win] have "?rec \<in> set (g2_emit pd s e c)" by simp
  with c page have "?rec \<in> set (g2_page_emit pd s e (web k))"
    by (auto simp: g2_page_emit_def)
  with k show ?thesis
    unfolding g2_collected [OF run] by auto
qed









section \<open>The claims\<close>

text \<open>
  C8. The Capterra adapter is a placeholder: whatever the product identifier, the date
  window and the flags, it returns the empty list of records.
\<close>

theorem capterra_returns_nothing:
  "scrape_capterra company_id start_d end_d debug_html headless slow_mo = []"
  by (simp add: scrape_capterra_def)

text \<open>
  C1. Every record an adapter returns has its date inside the window, both ends
  included, and a card whose date text does not parse (the parsed date is \<open>None\<close>) adds
  no record: it leaves the state of the run as it was.
\<close>

theorem output_dates_in_window:
  "(scrape_g2 pd web s e mp = Inr r \<longrightarrow> (\<forall>rec\<in>set (collected r). s \<le> date rec \<and> date rec \<le> e))
   \<and> (scrape_trustradius pd web s e mp = Inr r' \<longrightarrow>
        (\<forall>rec\<in>set (collected r'). s \<le> date rec \<and> date rec \<le> e))
   \<and> (\<forall>rec\<in>set (scrape_capterra cid s e dbg hl sm). s \<le> date rec \<and> date rec \<le> e)
   \<and> (card_date pd el g2_date_selectors = None \<longrightarrow> g2_card pd s e el h = h)
   \<and> (card_date pd el tr_date_selectors = None \<longrightarrow> tr_card pd s e el h = h)"
proof -
  have "s \<le> date rec \<and> date rec \<le> e"
    if "scrape_g2 pd web s e mp = Inr r" "rec \<in> set (collected r)" for rec
    using g2_collected_from [OF that] g2_emit_member(1,2) by blast
  moreover have "s \<le> date rec \<and> date rec \<le> e"
    if "scrape_trustradius pd web s e mp = Inr r'" "rec \<in> set (collected r')" for rec
    using tr_collected_from [OF that] tr_emit_member(1,2) by blast
  ultimately show ?thesis
    by (simp add: scrape_capterra_def g2_card_undated tr_card_undated)
qed

theorem output_dates_in_window_witness:
  "list_all (\<lambda>rec. 738886 \<le> date rec \<and> date rec \<le> 738976)
     (collected (projr (scrape_g2 demo_parse demo_web 738886 738976 10)))
   \<and> length (collected (projr (scrape_g2 demo_parse demo_web 738886 738976 10))) = 2
   \<and> list_all (\<lambda>rec. 738886 \<le> date rec \<and> date rec \<le> 738976)
     (collected (projr (scrape_trustradius demo_parse demo_web 738886 738976 3)))
   \<and> length (collected (projr (scrape_trustradius demo_parse demo_web 738886 738976 3))) = 2
   \<and> card_date demo_parse card_undated g2_date_selectors = None
   \<and> g2_card demo_parse 738886 738976 card_undated start_harvest = start_harvest
   \<and> card_date demo_parse card_undated tr_date_selectors = None
   \<and> tr_card demo_parse 738886 738976 card_undated start_harvest = start_harvest"
proof -
  have g: "card_date demo_parse card_undated g2_date_selectors = None"
    and t: "card_date demo_parse card_undated tr_date_selectors = None"
    by code_simp+
  show ?thesis
    using output_dates_in_window [where pd = demo_parse and web = demo_web and s = 738886
        and e = 738976 and mp = 10 and el = card_undated and h = start_harvest
        and r = "projr (scrape_g2 demo_parse demo_web 738886 738976 10)"]
      output_dates_in_window [where pd = demo_parse and web = demo_web and s = 738886
        and e = 738976 and mp = 3
        and r' = "projr (scrape_trustradius demo_parse demo_web 738886 738976 3)"] g t
    by (simp add: demo_g2_run demo_tr_run list_all_iff)
qed

text \<open>
  C7. A run fetches at most \<open>max_pages\<close> pages, numbered from 1 (10 pages when the option
  is not given; none when \<open>max_pages\<close> is not positive), and handles at most 60 cards of a
  page, so it returns at most \<open>60 * max_pages\<close> records. The page loop is a recursion
  over the finite list \<open>[1..max_pages]\<close> and the card loop one over at most 60 cards, so
  every run ends, with an exception or with a result.
\<close>

theorem harvest_is_bounded:
  "(scrape_g2 pd web s e mp = Inr r \<longrightarrow>
      prefix (visited r) [1..mp] \<and> length (visited r) \<le> nat mp
      \<and> length (collected r) \<le> 60 * nat mp)
   \<and> (scrape_trustradius pd web s e mp = Inr r' \<longrightarrow>
      prefix (visited r') [1..mp] \<and> length (visited r') \<le> nat mp
      \<and> length (collected r') \<le> 60 * nat mp)
   \<and> length (g2_cards pg) \<le> 60
   \<and> length (capped (locator_all pg tr_cards_selector)) \<le> 60
   \<and> length (scrape_capterra cid s e dbg hl sm) = 0
   \<and> arg_max_pages None = 10"
proof -
  have "prefix (visited r) [1..mp] \<and> length (visited r) \<le> nat mp
      \<and> length (collected r) \<le> 60 * nat mp"
    if run: "scrape_g2 pd web s e mp = Inr r"
  proof -
    from g2_visited_prefix [OF run] have p: "prefix (visited r) [1..mp]" .
    then have "length (visited r) \<le> nat mp" by (rule length_prefix_upto)
    with g2_length_collected [OF run] p show ?thesis by simp
  qed
  moreover have "prefix (visited r') [1..mp] \<and> length (visited r') \<le> nat mp
      \<and> length (collected r') \<le> 60 * nat mp"
    if run: "scrape_trustradius pd web s e mp = Inr r'"
  proof -
    from tr_visited_prefix [OF run] have p: "prefix (visited r') [1..mp]" .
    then have "length (visited r') \<le> nat mp" by (rule length_prefix_upto)
    with tr_length_collected [OF run] p show ?thesis by simp
  qed
  ultimately show ?thesis
    by (simp add: length_g2_cards length_capped scrape_capterra_def arg_max_pages_def)
qed

theorem harvest_is_bounded_witness:
  "visited (projr (scrape_g2 demo_parse demo_web 738886 738976 10)) = [1, 2]
   \<and> length (visited (projr (scrape_g2 demo_parse demo_web 738886 738976 10))) \<le> nat 10
   \<and> length (collected (projr (scrape_g2 demo_parse demo_web 738886 738976 10))) \<le> 60 * nat 10
   \<and> visited (projr (scrape_trustradius demo_parse demo_web 738886 738976 3)) = [1, 2, 3]
   \<and> length (visited (projr (scrape_trustradius demo_parse demo_web 738886 738976 3))) \<le> nat 3
   \<and> length (collected (projr (scrape_trustradius demo_parse demo_web 738886 738976 3)))
       \<le> 60 * nat 3"
  using harvest_is_bounded [where pd = demo_parse and web = demo_web and s = 738886
        and e = 738976 and mp = 10
        and r = "projr (scrape_g2 demo_parse demo_web 738886 738976 10)"]
    harvest_is_bounded [where pd = demo_parse and web = demo_web and s = 738886
        and e = 738976 and mp = 3
        and r' = "projr (scrape_trustradius demo_parse demo_web 738886 738976 3)"]
  by (simp add: demo_g2_run demo_tr_run)

text \<open>
  C9. Every record of the TrustRadius adapter has the rating \<open>None\<close>: its loop body
  writes the constant and never runs a rating chain, whatever the page holds.
\<close>

theorem trustradius_rating_is_null:
  "scrape_trustradius pd web s e mp = Inr r \<Longrightarrow> \<forall>rec\<in>set (collected r). rating rec = None"
  using tr_collected_from tr_emit_member(4) by blast

theorem trustradius_rating_is_null_witness:
  "map rating (collected (projr (scrape_trustradius demo_parse demo_web 738886 738976 3)))
     = [None, None]"
proof -
  have "scrape_trustradius demo_parse demo_web 738886 738976 3
          = Inr (projr (scrape_trustradius demo_parse demo_web 738886 738976 3))"
    by (simp add: demo_tr_run)
  from trustradius_rating_is_null [OF this] show ?thesis
    by (simp add: demo_tr_run)
qed

text \<open>
  C5 (amended). The body chain accepts a candidate's stripped text exactly
  when it is longer than 20 characters, that is from 21 characters on; a text of 20
  characters is passed over. So every record returned has a body longer than 20
  characters.
\<close>

theorem body_longer_than_20:
  "(inner_text el sel = Inr raw \<longrightarrow>
      first_body el (sel # sels)
        = (if 20 < length (strip raw) then Some (strip raw) else first_body el sels))
   \<and> (first_body el sels = Some b \<longrightarrow> 20 < length b)
   \<and> (scrape_g2 pd web s e mp = Inr r \<longrightarrow> (\<forall>rec\<in>set (collected r). 20 < length (review rec)))
   \<and> (scrape_trustradius pd web s e mp = Inr r' \<longrightarrow>
        (\<forall>rec\<in>set (collected r'). 20 < length (review rec)))"
proof -
  have "20 < length (review rec)"
    if "scrape_g2 pd web s e mp = Inr r" "rec \<in> set (collected r)" for rec
    using g2_collected_from [OF that] g2_emit_member(3) by blast
  moreover have "20 < length (review rec)"
    if "scrape_trustradius pd web s e mp = Inr r'" "rec \<in> set (collected r')" for rec
    using tr_collected_from [OF that] tr_emit_member(3) by blast
  ultimately show ?thesis
    using first_body_Cons_Inr [of el sel raw sels] first_body_Some [of el sels b] by blast
qed

theorem body_longer_than_20_witness:
  "inner_text card_feb ''p'' = Inr ''Solid tool with a few rough edges.''
   \<and> first_body card_feb [''p''] = Some ''Solid tool with a few rough edges.''
   \<and> 20 < length ''Solid tool with a few rough edges.''
   \<and> map (\<lambda>rec. length (review rec))
        (collected (projr (scrape_g2 demo_parse demo_web 738886 738976 10))) = [35, 34]
   \<and> list_all (\<lambda>rec. 20 < length (review rec))
        (collected (projr (scrape_g2 demo_parse demo_web 738886 738976 10)))
   \<and> list_all (\<lambda>rec. 20 < length (review rec))
        (collected (projr (scrape_trustradius demo_parse demo_web 738886 738976 3)))"
proof -
  have p: "inner_text card_feb ''p'' = Inr ''Solid tool with a few rough edges.''"
    and b: "first_body card_feb [''p''] = Some ''Solid tool with a few rough edges.''"
    by code_simp+
  show ?thesis
    using body_longer_than_20 [where el = card_feb and sel = "''p''" and sels = "[]"
        and raw = "''Solid tool with a few rough edges.''"
        and b = "''Solid tool with a few rough edges.''"
        and pd = demo_parse and web = demo_web and s = 738886 and e = 738976 and mp = 10
        and r = "projr (scrape_g2 demo_parse demo_web 738886 738976 10)"]
      body_longer_than_20 [where el = card_feb and sels = "[''p'']"
        and b = "''Solid tool with a few rough edges.''"]
      body_longer_than_20 [where pd = demo_parse and web = demo_web and s = 738886
        and e = 738976 and mp = 3
        and r' = "projr (scrape_trustradius demo_parse demo_web 738886 738976 3)"] p b
    by (simp add: demo_g2_run demo_tr_run list_all_iff)
qed

text \<open>
  C5 (counterexample). A 20-character body is not acceptable: a card whose only text has exactly 20 characters, dated inside the
  window, gets no body from either chain and adds no record.
\<close>

theorem body_of_20_characters_is_rejected:
  "inner_text card_short ''p'' = Inr ''12345678901234567890''
   \<and> length (strip ''12345678901234567890'') = 20
   \<and> first_body card_short g2_body_selectors = None
   \<and> first_body card_short tr_body_selectors = None
   \<and> in_range (card_date demo_parse card_short g2_date_selectors) 738886 738976
   \<and> g2_card demo_parse 738886 738976 card_short start_harvest = start_harvest
   \<and> tr_card demo_parse 738886 738976 card_short start_harvest = start_harvest"
  by code_simp

text \<open>
  C6. The detector \<open>detect_blocked\<close> depends on the markup alone and is a substring search that ignores
  letter case: it answers true exactly when some part of the markup equals one of the
  fixed phrases up to letter case. So markup with "unusual traffic" in any letter case is
  blocked, and markup in which no phrase occurs is not.
\<close>

theorem detect_blocked_is_case_insensitive_search:
  "detect_blocked html = (\<exists>n\<in>set needles. \<exists>u. sublist u html \<and> lower u = lower n)
   \<and> (sublist u html \<and> lower u = ''unusual traffic'' \<longrightarrow> detect_blocked html)
   \<and> ((\<forall>n\<in>set needles. \<not> sublist (lower n) (lower html)) \<longrightarrow> \<not> detect_blocked html)"
proof -
  have 1: "detect_blocked html = (\<exists>n\<in>set needles. \<exists>u. sublist u html \<and> lower u = lower n)"
    by (simp add: detect_blocked_iff sublist_lower)
  have n: "''unusual traffic'' \<in> set needles" and l: "lower ''unusual traffic'' = ''unusual traffic''"
    by code_simp+
  have 2: "detect_blocked html" if "sublist u html" "lower u = ''unusual traffic''"
    unfolding 1 using that n l by metis
  show ?thesis
    using 1 2 by (auto simp: detect_blocked_iff)
qed

theorem detect_blocked_is_case_insensitive_search_witness:
  "sublist ''UnUsual TRAFFIC'' ''<p>UnUsual TRAFFIC from your network</p>''
   \<and> lower ''UnUsual TRAFFIC'' = ''unusual traffic''
   \<and> detect_blocked ''<p>UnUsual TRAFFIC from your network</p>''
   \<and> list_all (\<lambda>n. \<not> sublist (lower n) (lower ''<html>Reviews of the product</html>'')) needles
   \<and> \<not> detect_blocked ''<html>Reviews of the product</html>''"
proof -
  have a: "sublist ''UnUsual TRAFFIC'' ''<p>UnUsual TRAFFIC from your network</p>''"
    and b: "lower ''UnUsual TRAFFIC'' = ''unusual traffic''"
    and c: "list_all (\<lambda>n. \<not> sublist (lower n) (lower ''<html>Reviews of the product</html>''))
              needles"
    by code_simp+
  have d: "detect_blocked ''<p>UnUsual TRAFFIC from your network</p>''"
    using detect_blocked_is_case_insensitive_search
        [where html = "''<p>UnUsual TRAFFIC from your network</p>''" and u = "''UnUsual TRAFFIC''",
          THEN conjunct2, THEN conjunct1] a b
    by blast
  have e: "\<not> detect_blocked ''<html>Reviews of the product</html>''"
    using detect_blocked_is_case_insensitive_search
        [where html = "''<html>Reviews of the product</html>''", THEN conjunct2, THEN conjunct2] c
    unfolding list_all_iff by blast
  from a b c d e show ?thesis by blast
qed

text \<open>
  C4 (amended). On each page the G2 run probes for review containers and then reads the
  markup, and it tests the detector's answer first: the run ends with \<open>BLOCKED\<close> exactly
  when the last page fetched has blocked markup, whether or not a container selector
  matched there, and with \<open>NO_CONTAINERS\<close> exactly when the last page fetched is not
  blocked and no selector of the candidate list matched. A page that is blocked or without
  containers is the last page of the run, and the records the run returns are those of the
  cards of the pages fetched before it, in order: none comes from that page, even when it
  holds review containers.
\<close>

theorem g2_blocked_is_tested_first:
  "scrape_g2 pd web s e mp = Inr r \<Longrightarrow>
     (stop_reason r = BLOCKED
        \<longleftrightarrow> visited r \<noteq> [] \<and> detect_blocked (content (web (last (visited r)))))
     \<and> (stop_reason r = NO_CONTAINERS
        \<longleftrightarrow> visited r \<noteq> [] \<and> \<not> detect_blocked (content (web (last (visited r))))
            \<and> \<not> found_any (web (last (visited r))) g2_candidate_waits)
     \<and> (\<forall>k\<in>set (visited r).
          detect_blocked (content (web k)) \<or> \<not> found_any (web k) g2_candidate_waits
          \<longrightarrow> last (visited r) = k
              \<and> collected r =
                  concat (map (\<lambda>n. concat (map (g2_emit pd s e) (g2_cards (web n))))
                            (butlast (visited r))))"
proof -
  assume run: "scrape_g2 pd web s e mp = Inr r"
  let ?l = "web (last (visited r))"
  have a: "stop_reason r = BLOCKED \<longleftrightarrow> visited r \<noteq> [] \<and> detect_blocked (content ?l)"
    using g2_stop_reason_cases [OF run]
    by (auto simp: g2_page_reason_def g2_halts_def split: if_splits)
  have b: "stop_reason r = NO_CONTAINERS
        \<longleftrightarrow> visited r \<noteq> [] \<and> \<not> detect_blocked (content ?l)
            \<and> \<not> found_any ?l g2_candidate_waits"
    using g2_stop_reason_cases [OF run]
    by (auto simp: g2_page_reason_def g2_halts_def split: if_splits)
  have c: "last (visited r) = k
           \<and> collected r =
               concat (map (\<lambda>n. concat (map (g2_emit pd s e) (g2_cards (web n))))
                         (butlast (visited r)))"
    if k: "k \<in> set (visited r)"
      and w: "detect_blocked (content (web k)) \<or> \<not> found_any (web k) g2_candidate_waits" for k
  proof -
    from w have "g2_halts pd s (web k)" by (auto simp: g2_halts_def)
    from g2_halting_page(1) [OF run k this] have l: "last (visited r) = k" .
    from k have ne: "visited r \<noteq> []" by auto
    from ne l have v: "visited r = butlast (visited r) @ [k]"
      by (metis append_butlast_last_id)
    from w have last_emit: "g2_page_emit pd s e (web k) = []"
      by (auto simp: g2_page_emit_def)
    from g2_run [OF run, unfolded g2_outcome_def]
    have "\<forall>n\<in>set (butlast (visited r)). \<not> g2_halts pd s (web n)"
      by (simp add: list_all_iff)
    then have before:
      "map (\<lambda>n. g2_page_emit pd s e (web n)) (butlast (visited r))
         = map (\<lambda>n. concat (map (g2_emit pd s e) (g2_cards (web n)))) (butlast (visited r))"
      by (auto simp: g2_page_emit_def g2_halts_def)
    have "collected r = concat (map (\<lambda>n. g2_page_emit pd s e (web n)) (butlast (visited r) @ [k]))"
      using g2_collected [OF run] v by simp
    also have "\<dots> = concat (map (\<lambda>n. g2_page_emit pd s e (web n)) (butlast (visited r)))"
      using last_emit by simp
    finally show ?thesis using l before by simp
  qed
  from a b c show ?thesis by blast
qed

theorem g2_blocked_is_tested_first_witness:
  "stop_reason (projr (scrape_g2 demo_parse captcha_web 738886 738976 2)) = BLOCKED
   \<and> detect_blocked (content (captcha_web 1))
   \<and> \<not> found_any (captcha_web 1) g2_candidate_waits
   \<and> stop_reason (projr (scrape_g2 demo_parse empty_web 738886 738976 2)) = NO_CONTAINERS
   \<and> \<not> detect_blocked (content (empty_web 1))
   \<and> \<not> found_any (empty_web 1) g2_candidate_waits
   \<and> visited (projr (scrape_g2 demo_parse wall_web 738886 738976 3)) = [1, 2]
   \<and> detect_blocked (content (wall_web 2))
   \<and> found_any (wall_web 2) g2_candidate_waits
   \<and> g2_cards (wall_web 2) = [card_feb]
   \<and> g2_emit demo_parse 738886 738976 card_feb =
       [\<lparr>source = ''G2'', title = ''A title'', review = ''Solid tool with a few rough edges.'',
         date = 738917, rating = Some ''4.5''\<rparr>]
   \<and> collected (projr (scrape_g2 demo_parse wall_web 738886 738976 3)) =
       concat (map (g2_emit demo_parse 738886 738976) (g2_cards (wall_web 1)))
   \<and> collected (projr (scrape_g2 demo_parse wall_web 738886 738976 3)) =
       [\<lparr>source = ''G2'', title = ''A title'', review = ''Great product, we use it every day.'',
         date = 738955, rating = Some ''4.5''\<rparr>]"
proof -
  have b: "detect_blocked (content (captcha_web 1))"
    and n: "\<not> found_any (captcha_web 1) g2_candidate_waits"
    by code_simp+
  have b': "\<not> detect_blocked (content (empty_web 1))"
    and n': "\<not> found_any (empty_web 1) g2_candidate_waits"
    by code_simp+
  have "scrape_g2 demo_parse captcha_web 738886 738976 2
          = Inr (projr (scrape_g2 demo_parse captcha_web 738886 738976 2))"
    by (simp add: captcha_g2_run)
  from g2_blocked_is_tested_first [OF this, THEN conjunct1] b
  have 1: "stop_reason (projr (scrape_g2 demo_parse captcha_web 738886 738976 2)) = BLOCKED"
    by (simp add: captcha_g2_run)
  have "scrape_g2 demo_parse empty_web 738886 738976 2
          = Inr (projr (scrape_g2 demo_parse empty_web 738886 738976 2))"
    by (simp add: empty_g2_run)
  from g2_blocked_is_tested_first [OF this, THEN conjunct2, THEN conjunct1] b' n'
  have 2: "stop_reason (projr (scrape_g2 demo_parse empty_web 738886 738976 2)) = NO_CONTAINERS"
    by (simp add: empty_g2_run)
  let ?r = "projr (scrape_g2 demo_parse wall_web 738886 738976 3)"
  have v: "visited ?r = [1, 2]"
    by (simp add: wall_g2_run)
  have w: "detect_blocked (content (wall_web 2))"
    and f: "found_any (wall_web 2) g2_candidate_waits"
    by code_simp+
  have cs: "g2_cards (wall_web 2) = [card_feb]"
    by (simp add: g2_cards_def wall_web_def demo_page_def capped_take)
  have em: "g2_emit demo_parse 738886 738976 card_feb =
       [\<lparr>source = ''G2'', title = ''A title'', review = ''Solid tool with a few rough edges.'',
         date = 738917, rating = Some ''4.5''\<rparr>]"
    by code_simp
  have "scrape_g2 demo_parse wall_web 738886 738976 3 = Inr ?r"
    by (simp add: wall_g2_run)
  from g2_blocked_is_tested_first [OF this, THEN conjunct2, THEN conjunct2, rule_format, of 2] v w
  have 3: "collected ?r = concat (map (g2_emit demo_parse 738886 738976) (g2_cards (wall_web 1)))"
    by simp
  have 4: "collected ?r =
       [\<lparr>source = ''G2'', title = ''A title'', review = ''Great product, we use it every day.'',
         date = 738955, rating = Some ''4.5''\<rparr>]"
    by (simp add: wall_g2_run)
  from 1 2 b n b' n' v w f cs em 3 4 show ?thesis by blast
qed

text \<open>
  C4 (counterexample). On a page where no container selector matches and whose markup is
  an interstitial, the run ends with \<open>BLOCKED\<close>, not with \<open>NO_CONTAINERS\<close>.
\<close>

theorem no_containers_on_blocked_page_is_blocked:
  "\<not> found_any (captcha_web 1) g2_candidate_waits
   \<and> locator_all (captcha_web 1) g2_cards_selector = []
   \<and> detect_blocked (content (captcha_web 1))
   \<and> scrape_g2 demo_parse captcha_web 738886 738976 2 =
       Inr \<lparr>collected = [], stop_due_to_old = False, visited = [1],
            gotos = [(1, DomContentLoaded)], stop_reason = BLOCKED\<rparr>
   \<and> BLOCKED \<noteq> NO_CONTAINERS"
  by code_simp

text \<open>
  C2 (amended). In a run of the G2 adapter, a card whose parsed date is earlier than
  \<open>start_date\<close> adds no record and sets the flag \<open>stop_due_to_old\<close>. When such a card is
  among the cards handled on a fetched page \<open>k\<close> (one that is not blocked and has
  containers), the run ends after that page with \<open>DATE_BOUNDARY\<close>: the pages fetched are
  \<open>1, ..., k\<close>, the records returned are those of these pages and of no later one, and every
  card of page \<open>k\<close> with a body and a date inside the window has its record in the output,
  whether it stands before or after the old card.
\<close>

theorem g2_date_boundary_stop:
  assumes "scrape_g2 pd web s e mp = Inr r"
    and "k \<in> set (visited r)"
    and "\<not> detect_blocked (content (web k))" and "found_any (web k) g2_candidate_waits"
    and "el \<in> set (g2_cards (web k))"
    and "card_date pd el g2_date_selectors = Some x" and "x < s"
  shows "g2_card pd s e el h = h\<lparr>stop_due_to_old := True\<rparr>
     \<and> stop_reason r = DATE_BOUNDARY
     \<and> visited r = [1..k]
     \<and> collected r = concat (map (\<lambda>n. g2_page_emit pd s e (web n)) [1..k])
     \<and> (\<forall>c\<in>set (g2_cards (web k)). \<forall>b y.
          first_body c g2_body_selectors = Some b \<and> card_date pd c g2_date_selectors = Some y
            \<and> s \<le> y \<and> y \<le> e
          \<longrightarrow> \<lparr>source = ''G2'', title = card_title c, review = b, date = y,
                rating = g2_rating c g2_rating_selectors None\<rparr> \<in> set (collected r))"
proof -
  from assms(5-7) have halts: "g2_halts pd s (web k)"
    unfolding g2_halts_iff by blast
  note last = g2_halting_page [OF assms(1,2) halts]
  from last(3) assms(3,4) have "stop_reason r = DATE_BOUNDARY"
    by (simp add: g2_page_reason_def)
  moreover from g2_collected [OF assms(1)] last(2)
  have "collected r = concat (map (\<lambda>n. g2_page_emit pd s e (web n)) [1..k])" by simp
  moreover note g2_card_old [OF assms(6,7)] last(2)
  moreover have "\<lparr>source = ''G2'', title = card_title c, review = b, date = y,
                rating = g2_rating c g2_rating_selectors None\<rparr> \<in> set (collected r)"
    if "c \<in> set (g2_cards (web k))" "first_body c g2_body_selectors = Some b"
      "card_date pd c g2_date_selectors = Some y" "s \<le> y" "y \<le> e" for c b y
    using g2_page_record_kept [OF assms(1-4) that] .
  ultimately show ?thesis by blast
qed

theorem g2_date_boundary_stop_witness:
  "2 \<in> set (visited (projr (scrape_g2 demo_parse demo_web 738886 738976 10)))
   \<and> \<not> detect_blocked (content (demo_web 2))
   \<and> found_any (demo_web 2) g2_candidate_waits
   \<and> g2_cards (demo_web 2) = [card_dec]
   \<and> card_date demo_parse card_dec g2_date_selectors = Some 738869
   \<and> (738869 :: int) < 738886
   \<and> g2_card demo_parse 738886 738976 card_dec start_harvest
       = start_harvest\<lparr>stop_due_to_old := True\<rparr>
   \<and> stop_reason (projr (scrape_g2 demo_parse demo_web 738886 738976 10)) = DATE_BOUNDARY
   \<and> visited (projr (scrape_g2 demo_parse demo_web 738886 738976 10)) = [1..2]
   \<and> length (collected (projr (scrape_g2 demo_parse demo_web 738886 738976 10))) = 2"
proof -
  let ?r = "projr (scrape_g2 demo_parse demo_web 738886 738976 10)"
  have run: "scrape_g2 demo_parse demo_web 738886 738976 10 = Inr ?r"
    by (simp add: demo_g2_run)
  have k: "2 \<in> set (visited ?r)"
    by (simp add: demo_g2_run)
  have nb: "\<not> detect_blocked (content (demo_web 2))"
    and f: "found_any (demo_web 2) g2_candidate_waits"
    and d: "card_date demo_parse card_dec g2_date_selectors = Some 738869"
    by code_simp+
  have cs: "g2_cards (demo_web 2) = [card_dec]"
    by (simp add: g2_cards_def demo_web_def demo_page_def capped_take)
  then have c: "card_dec \<in> set (g2_cards (demo_web 2))" by simp
  have x: "(738869 :: int) < 738886" by simp
  from g2_date_boundary_stop [OF run k nb f c d x, where h = start_harvest]
  have "g2_card demo_parse 738886 738976 card_dec start_harvest
          = start_harvest\<lparr>stop_due_to_old := True\<rparr>"
    and "stop_reason ?r = DATE_BOUNDARY" and "visited ?r = [1..2]"
    by blast+
  moreover have "length (collected ?r) = 2"
    by (simp add: demo_g2_run)
  ultimately show ?thesis
    using k nb f cs d x by blast
qed

text \<open>
  C2 (counterexample). The TrustRadius adapter has no date boundary: on the example
  site, whose reviews run from newest to oldest and whose page 2 holds a review older
  than \<open>start_date\<close>, it goes on to fetch page 3 and ends at the page limit.
\<close>

theorem trustradius_runs_past_old_reviews:
  "capped (locator_all (demo_web 2) tr_cards_selector) = [card_dec]
   \<and> card_date demo_parse card_dec tr_date_selectors = Some 738869
   \<and> (738869 :: int) < 738886
   \<and> visited (projr (scrape_trustradius demo_parse demo_web 738886 738976 3)) = [1, 2, 3]
   \<and> stop_reason (projr (scrape_trustradius demo_parse demo_web 738886 738976 3)) = MAX_PAGES
   \<and> MAX_PAGES \<noteq> DATE_BOUNDARY"
proof -
  have "capped (locator_all (demo_web 2) tr_cards_selector) = [card_dec]"
    by (simp add: demo_web_def demo_page_def capped_take)
  moreover have "card_date demo_parse card_dec tr_date_selectors = Some 738869"
    by code_simp
  ultimately show ?thesis
    by (simp add: demo_tr_run)
qed






end
